theory Spec2Isabelle
  imports Main
begin

section \<open>The record-to-feature transformer of the Spark tutorial notebook\<close>

text \<open>
  The notebook defines one function of its own, \<^verbatim>\<open>row_to_labeled_point\<close>:
  \<^verbatim>\<open>
  def row_to_labeled_point(line):
      passenger_id, klass, age, sex, survived = [segs.strip('"') for segs in line.split(',')]
      klass = int(klass[0]) - 1

      if (age not in ['adults', 'child'] or
          sex not in ['man', 'women'] or
          survived not in ['yes', 'no']):
          raise RuntimeError('unknown value')

      features = [
          klass,
          (1 if age == 'adults' else 0),
          (1 if sex == 'women' else 0)
      ]
      return LabeledPoint(1 if survived == 'yes' else 0, features)
  \<close>
  A line is a \<^typ>\<open>string\<close>; its characters are read as code points below 256. Every
  exception the function can raise is a value of \<open>py_error\<close>, and the result is a sum
  with the error on the left.
\<close>

subsection \<open>Data\<close>

text \<open>
  \<^verbatim>\<open>LabeledPoint(label, features)\<close> of the Spark library: a label and a feature vector.
  The library stores both as floating-point numbers; the values built here are the
  integers the function passes in (between -1 and 8), which that conversion keeps.
\<close>

record LabeledPoint =
  label :: int
  features :: "int list"

text \<open>
  The exceptions of the function, in the order in which its statements can raise them:
  the tuple unpacking with fewer than five segments (\<^verbatim>\<open>ValueError: not enough values to
  unpack (expected 5, got n)\<close>) or more than five (\<^verbatim>\<open>ValueError: too many values to
  unpack (expected 5)\<close>), \<^verbatim>\<open>klass[0]\<close> on an empty string (\<^verbatim>\<open>IndexError: string index
  out of range\<close>), \<^verbatim>\<open>int\<close> on a character that is no digit (\<^verbatim>\<open>ValueError: invalid
  literal for int() with base 10\<close>), and the explicit \<^verbatim>\<open>RuntimeError('unknown value')\<close>.
\<close>

datatype py_error =
    ValueError_not_enough_values nat
  | ValueError_too_many_values
  | IndexError
  | ValueError_invalid_literal char
  | RuntimeError_unknown_value

subsection \<open>The string operations the function calls\<close>

text \<open>
  \<^verbatim>\<open>line.split(',')\<close>: the segments between the commas, every comma a separator. The
  empty line has the one segment \<open>''''\<close>. The result is never empty, so the \<open>[]\<close>
  branch of the case below is not reached.
\<close>

fun split_comma :: "string \<Rightarrow> string list" where
  "split_comma [] = [[]]"
| "split_comma (c # cs) =
     (if c = CHR '','' then [] # split_comma cs
      else (case split_comma cs of
              [] \<Rightarrow> [[c]]
            | w # ws \<Rightarrow> (c # w) # ws))"

text \<open>\<^verbatim>\<open>segs.strip('"')\<close>: all double quotes at the start and at the end are removed.\<close>

definition strip_quotes :: "string \<Rightarrow> string" where
  "strip_quotes s =
     rev (dropWhile (\<lambda>c. c = CHR 0x22) (rev (dropWhile (\<lambda>c. c = CHR 0x22) s)))"

text \<open>
  \<^verbatim>\<open>s.rstrip('"')\<close>, the right half of \<open>strip_quotes\<close>: stripping is removing the
  quotes at the start and then those at the end.
\<close>

definition rstrip_quotes :: "string \<Rightarrow> string" where
  "rstrip_quotes s = rev (dropWhile (\<lambda>c. c = CHR 0x22) (rev s))"

text \<open>
  \<^verbatim>\<open>int(klass[0])\<close>: \<^verbatim>\<open>int\<close> of a one-character string. It is the digit's value for
  \<open>0\<close> to \<open>9\<close> and a \<^verbatim>\<open>ValueError\<close> for every other character of the alphabet (a
  sign, a blank or an underscore alone is no literal). The decimal digits of other
  scripts, which \<^verbatim>\<open>int\<close> reads too, are code points beyond this alphabet.
\<close>

definition int_of_char :: "char \<Rightarrow> py_error + int" where
  "int_of_char c =
     (let n = (of_char c :: nat)
      in if 48 \<le> n \<and> n \<le> 57 then Inr (int n - 48)
         else Inl (ValueError_invalid_literal c))"

subsection \<open>The transformer\<close>

definition row_to_labeled_point :: "string \<Rightarrow> py_error + LabeledPoint" where
  "row_to_labeled_point line =
     (let segs = map strip_quotes (split_comma line) in
      if length segs < 5 then Inl (ValueError_not_enough_values (length segs))
      else if length segs > 5 then Inl ValueError_too_many_values
      else
        let klass = segs ! 1; age = segs ! 2; sex = segs ! 3; survived = segs ! 4 in
        (case klass of
           [] \<Rightarrow> Inl IndexError
         | c # _ \<Rightarrow>
            (case int_of_char c of
               Inl e \<Rightarrow> Inl e
             | Inr d \<Rightarrow>
                let klass = d - 1 in
                if age \<notin> set [''adults'', ''child''] \<or>
                   sex \<notin> set [''man'', ''women''] \<or>
                   survived \<notin> set [''yes'', ''no'']
                then Inl RuntimeError_unknown_value
                else
                  let features = [klass,
                                  (if age = ''adults'' then 1 else 0),
                                  (if sex = ''women'' then 1 else 0)]
                  in Inr \<lparr>label = (if survived = ''yes'' then 1 else 0),
                          features = features\<rparr>)))"

subsection \<open>Lines built from fields\<close>

text \<open>
  The properties below speak of lines made of fields and of fields wrapped in double quotes.
  \<open>join_comma\<close> writes the fields of a line with commas between them
  (\<^verbatim>\<open>','.join(fields)\<close>), \<open>wrap_quotes\<close> puts a field between two double quotes, and
  \<open>quote_fields Q\<close> wraps the fields whose positions are in \<open>Q\<close>.
\<close>

fun join_comma :: "string list \<Rightarrow> string" where
  "join_comma [] = []"
| "join_comma [f] = f"
| "join_comma (f # g # fs) = f @ CHR '','' # join_comma (g # fs)"

definition wrap_quotes :: "string \<Rightarrow> string" where
  "wrap_quotes s = CHR 0x22 # s @ [CHR 0x22]"

definition quote_fields :: "nat set \<Rightarrow> string list \<Rightarrow> string list" where
  "quote_fields Q fs = map (\<lambda>(i, f). if i \<in> Q then wrap_quotes f else f) (enumerate 0 fs)"

text \<open>A character is a decimal digit: what \<^verbatim>\<open>int\<close> accepts in \<open>int_of_char\<close>.\<close>

definition is_digit :: "char \<Rightarrow> bool" where
  "is_digit c = (48 \<le> (of_char c :: nat) \<and> (of_char c :: nat) \<le> 57)"

text \<open>A field begins with a decimal digit.\<close>

definition leading_digit :: "string \<Rightarrow> bool" where
  "leading_digit s = (case s of [] \<Rightarrow> False | c # _ \<Rightarrow> is_digit c)"

section \<open>Properties of the string operations\<close>

lemma split_comma_not_Nil: "split_comma s \<noteq> []"
  by (induction s) (auto split: list.splits)

lemma split_comma_no_comma: "CHR '','' \<notin> set s \<Longrightarrow> split_comma s = [s]"
  by (induction s) auto

lemma split_comma_append:
  "split_comma (a @ CHR '','' # b) = split_comma a @ split_comma b"
proof (induction a)
  case Nil
  show ?case by simp
next
  case (Cons c a)
  obtain w ws where w: "split_comma a = w # ws"
    using split_comma_not_Nil [of a] by (cases "split_comma a") auto
  show ?case using Cons w by simp
qed

lemma split_comma_join:
  "fs \<noteq> [] \<Longrightarrow> split_comma (join_comma fs) = concat (map split_comma fs)"
  by (induction fs rule: join_comma.induct) (simp_all add: split_comma_append)

lemma segments_no_comma: "f \<in> set (split_comma s) \<Longrightarrow> CHR '','' \<notin> set f"
proof (induction s arbitrary: f)
  case Nil
  then show ?case by simp
next
  case (Cons c s)
  obtain w ws where w: "split_comma s = w # ws"
    using split_comma_not_Nil [of s] by (cases "split_comma s") auto
  show ?case
  proof (cases "c = CHR '',''")
    case True
    with Cons show ?thesis by auto
  next
    case False
    with Cons.prems w have "f = c # w \<or> f \<in> set ws" by simp
    then show ?thesis
    proof
      assume "f = c # w"
      moreover have "CHR '','' \<notin> set w" using Cons.IH [of w] w by simp
      ultimately show ?thesis using False by auto
    next
      assume "f \<in> set ws"
      then show ?thesis using Cons.IH [of f] w by simp
    qed
  qed
qed

text \<open>
  Every line is its own segments joined by commas, so a statement about the lines
  \<open>join_comma (g (split_comma line))\<close> speaks of every line and what \<open>g\<close> does to its fields.
\<close>

lemma join_comma_split: "join_comma (split_comma s) = s"
proof (induction s)
  case Nil
  show ?case by simp
next
  case (Cons c s)
  obtain w ws where w: "split_comma s = w # ws"
    using split_comma_not_Nil [of s] by (cases "split_comma s") auto
  show ?case
  proof (cases "c = CHR '',''")
    case True
    with Cons w show ?thesis by simp
  next
    case False
    with Cons w show ?thesis by (cases ws) auto
  qed
qed

lemma length_split_comma:
  "length (split_comma s) = Suc (length (filter (\<lambda>c. c = CHR '','') s))"
proof (induction s)
  case Nil
  show ?case by simp
next
  case (Cons c s)
  obtain w ws where w: "split_comma s = w # ws"
    using split_comma_not_Nil [of s] by (cases "split_comma s") auto
  show ?case using Cons w by auto
qed

lemma split_comma_with_comma:
  "CHR '','' \<in> set s \<Longrightarrow> 2 \<le> length (split_comma s)"
proof -
  assume "CHR '','' \<in> set s"
  then have "filter (\<lambda>c. c = CHR '','') s \<noteq> []"
    by (simp add: filter_empty_conv)
  then show ?thesis
    by (cases "filter (\<lambda>c. c = CHR '','') s") (simp_all add: length_split_comma)
qed

lemma length_concat_split_ge: "length fs \<le> length (concat (map split_comma fs))"
proof (induction fs)
  case Nil
  show ?case by simp
next
  case (Cons f fs)
  have "1 \<le> length (split_comma f)" by (simp add: length_split_comma)
  with Cons show ?case by simp
qed

lemma length_concat_split_gt:
  "f \<in> set fs \<Longrightarrow> CHR '','' \<in> set f \<Longrightarrow> length fs < length (concat (map split_comma fs))"
proof (induction fs)
  case Nil
  then show ?case by simp
next
  case (Cons g fs)
  have one: "1 \<le> length (split_comma g)" by (simp add: length_split_comma)
  show ?case
  proof (cases "f = g")
    case True
    with Cons.prems have "2 \<le> length (split_comma g)" by (simp add: split_comma_with_comma)
    with length_concat_split_ge [of fs] show ?thesis by simp
  next
    case False
    with Cons have "length fs < length (concat (map split_comma fs))" by simp
    with one show ?thesis by simp
  qed
qed

lemma strip_quotes_wrap: "strip_quotes (wrap_quotes s) = strip_quotes s"
proof -
  let ?q = "\<lambda>c. c = CHR 0x22"
  have w: "strip_quotes (wrap_quotes s) = rev (dropWhile ?q (rev (dropWhile ?q (s @ [CHR 0x22]))))"
    unfolding strip_quotes_def wrap_quotes_def by (simp del: dropWhile_append3)
  show ?thesis
  proof (cases "\<forall>c\<in>set s. c = CHR 0x22")
    case True
    then have all: "\<forall>c\<in>set (s @ [CHR 0x22]). c = CHR 0x22" by simp
    have d1: "dropWhile ?q s = []"
      using True by (rule iffD2 [OF dropWhile_eq_Nil_conv])
    have d2: "dropWhile ?q (s @ [CHR 0x22]) = []"
      using all by (rule iffD2 [OF dropWhile_eq_Nil_conv])
    have "strip_quotes s = rev (dropWhile ?q (rev []))"
      by (simp only: strip_quotes_def d1)
    then show ?thesis by (simp only: w d2)
  next
    case False
    then obtain x where "x \<in> set s" "x \<noteq> CHR 0x22" by blast
    then have e: "dropWhile ?q (s @ [CHR 0x22]) = dropWhile ?q s @ [CHR 0x22]"
      by (simp add: dropWhile_append1)
    have "rev (dropWhile ?q (rev (dropWhile ?q s @ [CHR 0x22]))) = strip_quotes s"
      by (simp add: strip_quotes_def)
    then show ?thesis by (simp only: w e)
  qed
qed

lemma map_strip_quote_fields:
  "map strip_quotes (quote_fields Q fs) = map strip_quotes fs"
proof -
  have "map strip_quotes (map (\<lambda>(i, f). if i \<in> Q then wrap_quotes f else f) (enumerate n fs))
      = map strip_quotes fs" for n
    by (induction fs arbitrary: n) (simp_all add: strip_quotes_wrap)
  then show ?thesis by (simp add: quote_fields_def)
qed

lemma quote_fields_no_comma:
  assumes "\<forall>f\<in>set fs. CHR '','' \<notin> set f"
  shows "\<forall>g\<in>set (quote_fields Q fs). CHR '','' \<notin> set g"
proof -
  have "\<forall>g\<in>set (map (\<lambda>(i, f). if i \<in> Q then wrap_quotes f else f) (enumerate n fs)).
      CHR '','' \<notin> set g" for n
    using assms by (induction fs arbitrary: n) (simp_all add: wrap_quotes_def)
  then show ?thesis by (simp add: quote_fields_def)
qed

lemma concat_split_no_comma:
  "\<forall>f\<in>set fs. CHR '','' \<notin> set f \<Longrightarrow> concat (map split_comma fs) = fs"
  by (induction fs) (simp_all add: split_comma_no_comma)

lemma length_quote_fields: "length (quote_fields Q fs) = length fs"
  by (simp add: quote_fields_def)

lemma quote_fields_Nil_iff: "quote_fields Q fs = [] \<longleftrightarrow> fs = []"
  using length_quote_fields [of Q fs] by (metis length_0_conv)

lemma split_join_quote_fields:
  "split_comma (join_comma (quote_fields Q (split_comma line))) = quote_fields Q (split_comma line)"
proof -
  have ne: "quote_fields Q (split_comma line) \<noteq> []"
    by (simp add: quote_fields_Nil_iff split_comma_not_Nil)
  have "\<forall>f\<in>set (split_comma line). CHR '','' \<notin> set f"
    using segments_no_comma by blast
  then have "\<forall>g\<in>set (quote_fields Q (split_comma line)). CHR '','' \<notin> set g"
    by (rule quote_fields_no_comma)
  then show ?thesis
    using ne by (simp add: split_comma_join concat_split_no_comma)
qed

lemma strip_quotes_alt: "strip_quotes s = rstrip_quotes (dropWhile (\<lambda>c. c = CHR 0x22) s)"
  by (simp add: strip_quotes_def rstrip_quotes_def)

lemma rstrip_quotes_Nil: "rstrip_quotes [] = []"
  by (simp add: rstrip_quotes_def)

lemma rstrip_quotes_Cons:
  "rstrip_quotes (c # u) =
     (if \<forall>x\<in>set u. x = CHR 0x22 then (if c = CHR 0x22 then [] else [c]) else c # rstrip_quotes u)"
proof (cases "\<forall>x\<in>set u. x = CHR 0x22")
  case True
  then have "\<forall>x\<in>set (rev u). x = CHR 0x22" by simp
  then have "dropWhile (\<lambda>c. c = CHR 0x22) (rev u @ [c]) = dropWhile (\<lambda>c. c = CHR 0x22) [c]"
    by (intro dropWhile_append2) blast
  with True show ?thesis by (simp add: rstrip_quotes_def)
next
  case False
  then obtain x where "x \<in> set (rev u)" "\<not> x = CHR 0x22" by auto
  then have "dropWhile (\<lambda>c. c = CHR 0x22) (rev u @ [c]) = dropWhile (\<lambda>c. c = CHR 0x22) (rev u) @ [c]"
    by (rule dropWhile_append1)
  with False show ?thesis by (simp add: rstrip_quotes_def)
qed

lemma dropWhile_rstrip_quotes:
  "dropWhile (\<lambda>c. c = CHR 0x22) (rstrip_quotes u) = rstrip_quotes (dropWhile (\<lambda>c. c = CHR 0x22) u)"
proof (induction u)
  case Nil
  show ?case by (simp add: rstrip_quotes_Nil)
next
  case (Cons c u)
  show ?case
  proof (cases "\<forall>x\<in>set u. x = CHR 0x22")
    case True
    then have d: "dropWhile (\<lambda>c. c = CHR 0x22) u = []"
      by (rule iffD2 [OF dropWhile_eq_Nil_conv])
    show ?thesis using True by (simp add: rstrip_quotes_Cons rstrip_quotes_Nil d)
  next
    case False
    have sc: "rstrip_quotes (c # u) = c # rstrip_quotes u"
      by (simp only: rstrip_quotes_Cons False if_False)
    show ?thesis
    proof (cases "c = CHR 0x22")
      case True
      then show ?thesis unfolding sc using Cons.IH by simp
    next
      case False
      then show ?thesis by (simp add: sc)
    qed
  qed
qed

lemma rstrip_quotes_idem: "rstrip_quotes (rstrip_quotes u) = rstrip_quotes u"
  by (simp add: rstrip_quotes_def)

lemma strip_quotes_idem: "strip_quotes (strip_quotes s) = strip_quotes s"
  by (simp add: strip_quotes_alt dropWhile_rstrip_quotes rstrip_quotes_idem)

lemma set_strip_quotes: "set (strip_quotes s) \<subseteq> set s"
proof
  fix x assume "x \<in> set (strip_quotes s)"
  then have "x \<in> set (dropWhile (\<lambda>c. c = CHR 0x22) (rev (dropWhile (\<lambda>c. c = CHR 0x22) s)))"
    by (simp add: strip_quotes_def)
  then have "x \<in> set (rev (dropWhile (\<lambda>c. c = CHR 0x22) s))" by (rule set_dropWhileD)
  then have "x \<in> set (dropWhile (\<lambda>c. c = CHR 0x22) s)" by simp
  then show "x \<in> set s" by (rule set_dropWhileD)
qed

lemma split_join_stripped:
  "split_comma (join_comma (map strip_quotes (split_comma line))) =
     map strip_quotes (split_comma line)"
proof -
  have ne: "map strip_quotes (split_comma line) \<noteq> []"
    by (simp add: split_comma_not_Nil)
  have nc: "\<forall>g\<in>set (map strip_quotes (split_comma line)). CHR '','' \<notin> set g"
    using segments_no_comma set_strip_quotes by fastforce
  show ?thesis
    by (simp only: split_comma_join [OF ne] concat_split_no_comma [OF nc])
qed

section \<open>Properties of the transformer\<close>

lemma int_of_char_digit: "is_digit c \<Longrightarrow> int_of_char c = Inr (int (of_char c) - 48)"
  by (simp add: int_of_char_def is_digit_def Let_def)

lemma int_of_char_no_digit: "\<not> is_digit c \<Longrightarrow> int_of_char c = Inl (ValueError_invalid_literal c)"
  by (simp add: int_of_char_def is_digit_def Let_def)

lemma row_five:
  assumes "split_comma line = [passenger_id, klass, age, sex, survived]"
  shows "row_to_labeled_point line =
    (case strip_quotes klass of
       [] \<Rightarrow> Inl IndexError
     | c # _ \<Rightarrow>
        (case int_of_char c of
           Inl e \<Rightarrow> Inl e
         | Inr d \<Rightarrow>
            if strip_quotes age \<notin> set [''adults'', ''child''] \<or>
               strip_quotes sex \<notin> set [''man'', ''women''] \<or>
               strip_quotes survived \<notin> set [''yes'', ''no'']
            then Inl RuntimeError_unknown_value
            else Inr \<lparr>label = (if strip_quotes survived = ''yes'' then 1 else 0),
                      features = [d - 1,
                                  (if strip_quotes age = ''adults'' then 1 else 0),
                                  (if strip_quotes sex = ''women'' then 1 else 0)]\<rparr>))"
  using assms by (simp add: row_to_labeled_point_def Let_def split: list.splits sum.splits)

lemma row_five_digit:
  assumes "split_comma line = [passenger_id, klass, age, sex, survived]"
    and "strip_quotes klass = c # rest" and "is_digit c"
  shows "row_to_labeled_point line =
    (if strip_quotes age \<notin> set [''adults'', ''child''] \<or>
        strip_quotes sex \<notin> set [''man'', ''women''] \<or>
        strip_quotes survived \<notin> set [''yes'', ''no'']
     then Inl RuntimeError_unknown_value
     else Inr \<lparr>label = (if strip_quotes survived = ''yes'' then 1 else 0),
               features = [int (of_char c) - 49,
                           (if strip_quotes age = ''adults'' then 1 else 0),
                           (if strip_quotes sex = ''women'' then 1 else 0)]\<rparr>)"
  by (simp only: row_five [OF assms(1)] assms(2) list.case int_of_char_digit [OF assms(3)] sum.case)
     simp

text \<open>
  Claim C1. A line that splits on commas into exactly five fields and whose class field,
  its quotes stripped, begins with a digit: the transformer raises the
  \<^verbatim>\<open>RuntimeError('unknown value')\<close> exactly when the age field is not one of
  \<open>adults\<close>, \<open>child\<close>, or the sex field not one of \<open>man\<close>, \<open>women\<close>, or the survival
  field not one of \<open>yes\<close>, \<open>no\<close>; it fails at all exactly then; and otherwise it returns
  the record with the label and all three features computed from the fields.
\<close>

theorem validation_decides_five_field_rows:
  assumes "split_comma line = [passenger_id, klass, age, sex, survived]"
    and "strip_quotes klass = c # rest" and "is_digit c"
  shows "(row_to_labeled_point line = Inl RuntimeError_unknown_value \<longleftrightarrow>
            strip_quotes age \<notin> {''adults'', ''child''} \<or>
            strip_quotes sex \<notin> {''man'', ''women''} \<or>
            strip_quotes survived \<notin> {''yes'', ''no''})
       \<and> (isl (row_to_labeled_point line) \<longleftrightarrow>
            strip_quotes age \<notin> {''adults'', ''child''} \<or>
            strip_quotes sex \<notin> {''man'', ''women''} \<or>
            strip_quotes survived \<notin> {''yes'', ''no''})
       \<and> (strip_quotes age \<in> {''adults'', ''child''} \<and>
            strip_quotes sex \<in> {''man'', ''women''} \<and>
            strip_quotes survived \<in> {''yes'', ''no''} \<longrightarrow>
            row_to_labeled_point line =
              Inr \<lparr>label = (if strip_quotes survived = ''yes'' then 1 else 0),
                    features = [int (of_char c) - 49,
                                (if strip_quotes age = ''adults'' then 1 else 0),
                                (if strip_quotes sex = ''women'' then 1 else 0)]\<rparr>)"
  unfolding row_five_digit [OF assms] by (simp split: if_splits)

theorem validation_decides_five_field_rows_witness:
  "split_comma ''7,\"2nd\",adults,\"man\",maybe'' = [''7'', ''\"2nd\"'', ''adults'', ''\"man\"'', ''maybe'']
   \<and> strip_quotes ''\"2nd\"'' = CHR ''2'' # ''nd'' \<and> is_digit CHR ''2''
   \<and> strip_quotes ''maybe'' \<notin> {''yes'', ''no''}
   \<and> row_to_labeled_point ''7,\"2nd\",adults,\"man\",maybe'' = Inl RuntimeError_unknown_value
   \<and> split_comma ''7,\"2nd\",adults,\"man\",no'' = [''7'', ''\"2nd\"'', ''adults'', ''\"man\"'', ''no'']
   \<and> row_to_labeled_point ''7,\"2nd\",adults,\"man\",no'' = Inr \<lparr>label = 0, features = [1, 1, 0]\<rparr>"
proof -
  have s: "split_comma ''7,\"2nd\",adults,\"man\",maybe'' = [''7'', ''\"2nd\"'', ''adults'', ''\"man\"'', ''maybe'']"
    by simp
  have t: "split_comma ''7,\"2nd\",adults,\"man\",no'' = [''7'', ''\"2nd\"'', ''adults'', ''\"man\"'', ''no'']"
    by simp
  have k: "strip_quotes ''\"2nd\"'' = CHR ''2'' # ''nd''" by (simp add: strip_quotes_def)
  have d: "is_digit CHR ''2''" by (simp add: is_digit_def)
  have v: "strip_quotes ''maybe'' \<notin> {''yes'', ''no''}" by (simp add: strip_quotes_def)
  have a: "strip_quotes ''adults'' = ''adults''" and m: "strip_quotes ''\"man\"'' = ''man''"
    and n: "strip_quotes ''no'' = ''no''" by (simp_all add: strip_quotes_def)
  from validation_decides_five_field_rows [OF s k d] v
  have bad: "row_to_labeled_point ''7,\"2nd\",adults,\"man\",maybe'' = Inl RuntimeError_unknown_value"
    by blast
  from validation_decides_five_field_rows [OF t k d]
  have good: "row_to_labeled_point ''7,\"2nd\",adults,\"man\",no'' = Inr \<lparr>label = 0, features = [1, 1, 0]\<rparr>"
    unfolding a m n by simp
  from s k d v bad t good show ?thesis by blast
qed

text \<open>
  Claim C2. A five-field line whose class field is \<open>1st\<close>, age field \<open>adults\<close>, sex field
  \<open>women\<close> and survival field \<open>yes\<close>, each with or without double quotes around it
  (the field with its quotes stripped is the given word), yields label 1 and features
  \<open>[0, 1, 1]\<close>, whatever the passenger identifier.
\<close>

theorem first_class_adult_woman_survivor:
  assumes "split_comma line = [passenger_id, klass, age, sex, survived]"
    and "strip_quotes klass = ''1st''" and "strip_quotes age = ''adults''"
    and "strip_quotes sex = ''women''" and "strip_quotes survived = ''yes''"
  shows "row_to_labeled_point line = Inr \<lparr>label = 1, features = [0, 1, 1]\<rparr>"
  unfolding row_five [OF assms(1)] assms(2-5) by (simp add: int_of_char_def)

theorem first_class_adult_woman_survivor_witness:
  "row_to_labeled_point ''7,\"1st\",\"adults\",\"women\",\"yes\"'' =
     Inr \<lparr>label = 1, features = [0, 1, 1]\<rparr>
   \<and> row_to_labeled_point ''7,1st,adults,women,yes'' =
     Inr \<lparr>label = 1, features = [0, 1, 1]\<rparr>"
proof -
  have q: "split_comma ''7,\"1st\",\"adults\",\"women\",\"yes\"'' =
      [''7'', ''\"1st\"'', ''\"adults\"'', ''\"women\"'', ''\"yes\"'']" by simp
  have u: "split_comma ''7,1st,adults,women,yes'' =
      [''7'', ''1st'', ''adults'', ''women'', ''yes'']" by simp
  have "row_to_labeled_point ''7,\"1st\",\"adults\",\"women\",\"yes\"'' =
      Inr \<lparr>label = 1, features = [0, 1, 1]\<rparr>"
    by (rule first_class_adult_woman_survivor [OF q]) (simp_all add: strip_quotes_def)
  moreover have "row_to_labeled_point ''7,1st,adults,women,yes'' =
      Inr \<lparr>label = 1, features = [0, 1, 1]\<rparr>"
    by (rule first_class_adult_woman_survivor [OF u]) (simp_all add: strip_quotes_def)
  ultimately show ?thesis by (rule conjI)
qed

text \<open>
  Claim C3. A five-field line whose class field is \<open>3rd\<close>, age field \<open>child\<close>, sex field
  \<open>man\<close> and survival field \<open>no\<close> yields label 0 and features \<open>[2, 0, 0]\<close>.
\<close>

theorem third_class_child_man_lost:
  assumes "split_comma line = [passenger_id, klass, age, sex, survived]"
    and "strip_quotes klass = ''3rd''" and "strip_quotes age = ''child''"
    and "strip_quotes sex = ''man''" and "strip_quotes survived = ''no''"
  shows "row_to_labeled_point line = Inr \<lparr>label = 0, features = [2, 0, 0]\<rparr>"
  unfolding row_five [OF assms(1)] assms(2-5) by (simp add: int_of_char_def)

theorem third_class_child_man_lost_witness:
  "row_to_labeled_point ''1313,\"3rd\",child,man,\"no\"'' =
     Inr \<lparr>label = 0, features = [2, 0, 0]\<rparr>"
proof -
  have s: "split_comma ''1313,\"3rd\",child,man,\"no\"'' =
      [''1313'', ''\"3rd\"'', ''child'', ''man'', ''\"no\"'']" by simp
  show ?thesis
    by (rule third_class_child_man_lost [OF s]) (simp_all add: strip_quotes_def)
qed

text \<open>
  Claim C5. A line that splits on commas into fewer or more than five segments raises the
  \<^verbatim>\<open>ValueError\<close> of the tuple unpacking (not enough values, with the number found, or
  too many values): no segment is dropped or added, and no record is returned.
\<close>

theorem wrong_segment_count_raises:
  assumes "length (split_comma line) \<noteq> 5"
  shows "row_to_labeled_point line =
           (if length (split_comma line) < 5
            then Inl (ValueError_not_enough_values (length (split_comma line)))
            else Inl ValueError_too_many_values)
       \<and> isl (row_to_labeled_point line)"
  using assms by (simp add: row_to_labeled_point_def Let_def)

theorem wrong_segment_count_raises_witness:
  "length (split_comma ''7,1st,adults,women'') \<noteq> 5
   \<and> row_to_labeled_point ''7,1st,adults,women'' = Inl (ValueError_not_enough_values 4)
   \<and> length (split_comma ''7,1st,adults,women,yes,'') \<noteq> 5
   \<and> row_to_labeled_point ''7,1st,adults,women,yes,'' = Inl ValueError_too_many_values"
proof -
  have few: "length (split_comma ''7,1st,adults,women'') \<noteq> 5" by simp
  have many: "length (split_comma ''7,1st,adults,women,yes,'') \<noteq> 5" by simp
  from wrong_segment_count_raises [OF few]
  have "row_to_labeled_point ''7,1st,adults,women'' = Inl (ValueError_not_enough_values 4)"
    by simp
  moreover from wrong_segment_count_raises [OF many]
  have "row_to_labeled_point ''7,1st,adults,women,yes,'' = Inl ValueError_too_many_values"
    by simp
  ultimately show ?thesis using few many by blast
qed

text \<open>
  Claim C4. Wrapping the content of any fields of a line in double quotes does not change
  the result: for every line and every set \<open>Q\<close> of field positions, the line with the
  fields at the positions in \<open>Q\<close> wrapped in quotes gives the same record or the same
  exception as the line itself. Removing the quotes does not change it either: the line
  whose fields are the stripped fields gives the same result.
\<close>

theorem quote_wrapping_invariant:
  "row_to_labeled_point (join_comma (quote_fields Q (split_comma line))) =
     row_to_labeled_point line
   \<and> row_to_labeled_point (join_comma (map strip_quotes (split_comma line))) =
     row_to_labeled_point line"
proof -
  have wrapped: "map strip_quotes (split_comma (join_comma (quote_fields Q (split_comma line)))) =
      map strip_quotes (split_comma line)"
    by (simp only: split_join_quote_fields map_strip_quote_fields)
  have stripped: "map strip_quotes (split_comma (join_comma (map strip_quotes (split_comma line)))) =
      map strip_quotes (split_comma line)"
    by (simp add: split_join_stripped strip_quotes_idem)
  show ?thesis
    unfolding row_to_labeled_point_def wrapped stripped by (rule conjI; rule refl)
qed

theorem quote_wrapping_invariant_witness:
  "row_to_labeled_point ''7,\"1st\",adults,\"women\",yes'' =
     row_to_labeled_point ''7,1st,adults,women,yes''
   \<and> row_to_labeled_point ''7,crew,adults,women,yes'' =
     row_to_labeled_point ''\"7\",\"crew\",adults,\"\"women,yes''"
proof -
  have w: "join_comma (quote_fields {1, 3} (split_comma ''7,1st,adults,women,yes'')) =
      ''7,\"1st\",adults,\"women\",yes''"
    by (simp add: quote_fields_def wrap_quotes_def)
  have u: "join_comma (map strip_quotes (split_comma ''\"7\",\"crew\",adults,\"\"women,yes'')) =
      ''7,crew,adults,women,yes''"
    by (simp add: strip_quotes_def)
  from quote_wrapping_invariant [of "{1, 3}" "''7,1st,adults,women,yes''"]
  have "row_to_labeled_point ''7,\"1st\",adults,\"women\",yes'' =
      row_to_labeled_point ''7,1st,adults,women,yes''"
    unfolding w by (rule conjunct1)
  moreover from quote_wrapping_invariant [of "{}" "''\"7\",\"crew\",adults,\"\"women,yes''"]
  have "row_to_labeled_point ''7,crew,adults,women,yes'' =
      row_to_labeled_point ''\"7\",\"crew\",adults,\"\"women,yes''"
    unfolding u by (rule conjunct2)
  ultimately show ?thesis by (rule conjI)
qed

text \<open>
  Claim C6 says that feature 0 of every record that is returned is 0, 1 or 2, as the
  function's docstring lists the ticket classes. The function checks the three other
  fields against their lists and not this one: a class field \<open>9th\<close> gives feature 8 and a
  class field \<open>0\<close> gives feature -1.
\<close>

theorem class_index_outside_documented_range:
  "row_to_labeled_point ''7,9th,adults,women,yes'' = Inr \<lparr>label = 1, features = [8, 1, 1]\<rparr>
   \<and> row_to_labeled_point ''7,0,child,man,no'' = Inr \<lparr>label = 0, features = [- 1, 0, 0]\<rparr>"
  by (simp add: row_to_labeled_point_def strip_quotes_def int_of_char_def)

text \<open>
  Read off the record returned for the class field \<open>9th\<close>: a record is returned, and its
  feature 0 is 8, none of 0, 1, 2.
\<close>

theorem class_index_outside_documented_range_witness:
  "\<not> isl (row_to_labeled_point ''7,9th,adults,women,yes'')
   \<and> features (projr (row_to_labeled_point ''7,9th,adults,women,yes'')) ! 0 = 8
   \<and> features (projr (row_to_labeled_point ''7,9th,adults,women,yes'')) ! 0 \<notin> {0, 1, 2}"
proof -
  from class_index_outside_documented_range
  have "row_to_labeled_point ''7,9th,adults,women,yes'' = Inr \<lparr>label = 1, features = [8, 1, 1]\<rparr>"
    by (rule conjunct1)
  then show ?thesis by simp
qed

text \<open>
  Claim C7 says that an age field outside \<open>adults\<close>, \<open>child\<close> raises the validation error
  whatever the field count and the class field are. The unpacking and the parsing of the
  class come first in the function: with the age \<open>old\<close>, a class field \<open>crew\<close> raises the
  \<^verbatim>\<open>ValueError\<close> of \<^verbatim>\<open>int\<close>, and a line of four fields that of the unpacking.
\<close>

theorem unknown_age_masked_counterexample:
  "strip_quotes (split_comma ''7,crew,old,man,yes'' ! 2) \<notin> {''adults'', ''child''}
   \<and> row_to_labeled_point ''7,crew,old,man,yes'' = Inl (ValueError_invalid_literal CHR ''c'')
   \<and> strip_quotes (split_comma ''7,1st,old,man'' ! 2) \<notin> {''adults'', ''child''}
   \<and> row_to_labeled_point ''7,1st,old,man'' = Inl (ValueError_not_enough_values 4)"
  by (simp add: row_to_labeled_point_def strip_quotes_def int_of_char_def)

text \<open>
  Claim C7, amended. For every line that splits into exactly five fields and whose class
  field, its quotes stripped, begins with a digit, an age field outside \<open>adults\<close>,
  \<open>child\<close> raises \<^verbatim>\<open>RuntimeError('unknown value')\<close>, whatever the sex and survival
  fields are.
\<close>

theorem unknown_age_raises:
  assumes "split_comma line = [passenger_id, klass, age, sex, survived]"
    and "leading_digit (strip_quotes klass)"
    and "strip_quotes age \<notin> {''adults'', ''child''}"
  shows "row_to_labeled_point line = Inl RuntimeError_unknown_value"
proof -
  from assms(2) obtain c rest where k: "strip_quotes klass = c # rest" and d: "is_digit c"
    by (auto simp add: leading_digit_def split: list.splits)
  show ?thesis
    unfolding row_five_digit [OF assms(1) k d] using assms(3) by simp
qed

theorem unknown_age_raises_witness:
  "split_comma ''7,\"1st\",\"old\",man,yes'' = [''7'', ''\"1st\"'', ''\"old\"'', ''man'', ''yes'']
   \<and> leading_digit (strip_quotes ''\"1st\"'')
   \<and> strip_quotes ''\"old\"'' \<notin> {''adults'', ''child''}
   \<and> row_to_labeled_point ''7,\"1st\",\"old\",man,yes'' = Inl RuntimeError_unknown_value"
proof -
  have s: "split_comma ''7,\"1st\",\"old\",man,yes'' = [''7'', ''\"1st\"'', ''\"old\"'', ''man'', ''yes'']"
    by simp
  have k: "leading_digit (strip_quotes ''\"1st\"'')"
    by (simp add: leading_digit_def strip_quotes_def is_digit_def)
  have a: "strip_quotes ''\"old\"'' \<notin> {''adults'', ''child''}"
    by (simp add: strip_quotes_def)
  from s k a unknown_age_raises [OF s k a] show ?thesis by blast
qed

text \<open>
  Claim C8. The class is parsed before the three categorical fields are checked: a
  five-field line whose class field, its quotes stripped, does not begin with a digit
  raises the \<^verbatim>\<open>IndexError\<close> (empty class field) or the \<^verbatim>\<open>ValueError\<close> of \<^verbatim>\<open>int\<close>
  (the spec's structural errors), and never \<^verbatim>\<open>RuntimeError('unknown value')\<close>,
  whatever the age, sex and survival fields are.
\<close>

theorem class_parse_precedes_validation:
  assumes "split_comma line = [passenger_id, klass, age, sex, survived]"
    and "\<not> leading_digit (strip_quotes klass)"
  shows "row_to_labeled_point line =
           (case strip_quotes klass of
              [] \<Rightarrow> Inl IndexError
            | c # _ \<Rightarrow> Inl (ValueError_invalid_literal c))
       \<and> row_to_labeled_point line \<noteq> Inl RuntimeError_unknown_value"
proof (cases "strip_quotes klass")
  case Nil
  then show ?thesis by (simp add: row_five [OF assms(1)])
next
  case (Cons c rest)
  with assms(2) have "\<not> is_digit c" by (simp add: leading_digit_def)
  then have "int_of_char c = Inl (ValueError_invalid_literal c)"
    by (rule int_of_char_no_digit)
  with Cons show ?thesis by (simp add: row_five [OF assms(1)])
qed

theorem class_parse_precedes_validation_witness:
  "split_comma ''7,crew,old,it,maybe'' = [''7'', ''crew'', ''old'', ''it'', ''maybe'']
   \<and> \<not> leading_digit (strip_quotes ''crew'')
   \<and> row_to_labeled_point ''7,crew,old,it,maybe'' = Inl (ValueError_invalid_literal CHR ''c'')
   \<and> split_comma ''7,\"\",old,it,maybe'' = [''7'', ''\"\"'', ''old'', ''it'', ''maybe'']
   \<and> \<not> leading_digit (strip_quotes ''\"\"'')
   \<and> row_to_labeled_point ''7,\"\",old,it,maybe'' = Inl IndexError"
proof -
  have s1: "split_comma ''7,crew,old,it,maybe'' = [''7'', ''crew'', ''old'', ''it'', ''maybe'']"
    by simp
  have k1: "\<not> leading_digit (strip_quotes ''crew'')"
    by (simp add: leading_digit_def strip_quotes_def is_digit_def)
  have c1: "strip_quotes ''crew'' = ''crew''" by (simp add: strip_quotes_def)
  have s2: "split_comma ''7,\"\",old,it,maybe'' = [''7'', ''\"\"'', ''old'', ''it'', ''maybe'']"
    by simp
  have k2: "\<not> leading_digit (strip_quotes ''\"\"'')"
    by (simp add: leading_digit_def strip_quotes_def)
  have c2: "strip_quotes ''\"\"'' = []" by (simp add: strip_quotes_def)
  from class_parse_precedes_validation [OF s1 k1]
  have r1: "row_to_labeled_point ''7,crew,old,it,maybe'' = Inl (ValueError_invalid_literal CHR ''c'')"
    unfolding c1 by simp
  from class_parse_precedes_validation [OF s2 k2]
  have r2: "row_to_labeled_point ''7,\"\",old,it,maybe'' = Inl IndexError"
    unfolding c2 by simp
  from s1 k1 r1 s2 k2 r2 show ?thesis by blast
qed

text \<open>
  Claim C10 says that every line with a comma inside a quoted field splits into more
  than five segments and fails on the field count. The line of the four fields \<open>7\<close>,
  \<open>"1st,adults"\<close>, \<open>women\<close>, \<open>yes\<close> has such a field, splits into exactly five segments
  and is accepted.
\<close>

theorem quoted_comma_five_segments_counterexample:
  "row_to_labeled_point (join_comma [''7'', wrap_quotes ''1st,adults'', ''women'', ''yes'']) =
     Inr \<lparr>label = 1, features = [0, 1, 1]\<rparr>
   \<and> length (split_comma (join_comma [''7'', wrap_quotes ''1st,adults'', ''women'', ''yes''])) = 5"
  by (simp add: row_to_labeled_point_def strip_quotes_def int_of_char_def wrap_quotes_def)

text \<open>
  Claim C10, amended. Quotes do not protect a comma: for every line written as five
  fields with commas between them, when one field is a quoted text whose content
  contains a comma, the line is split at that comma as well, into more than five
  segments, and the transformer raises the \<^verbatim>\<open>ValueError\<close> of the unpacking (too many
  values).
\<close>

theorem quoted_comma_splits_field:
  assumes "length fs = 5" and "i < 5"
    and "fs ! i = wrap_quotes content" and "CHR '','' \<in> set content"
  shows "5 < length (split_comma (join_comma fs))
       \<and> row_to_labeled_point (join_comma fs) = Inl ValueError_too_many_values"
proof -
  from assms(1) have ne: "fs \<noteq> []" by auto
  from assms(1,2) have mem: "fs ! i \<in> set fs" by simp
  from assms(3,4) have com: "CHR '','' \<in> set (fs ! i)" by (simp add: wrap_quotes_def)
  have "length fs < length (concat (map split_comma fs))"
    using mem com by (rule length_concat_split_gt)
  then have more: "5 < length (split_comma (join_comma fs))"
    using assms(1) by (simp add: split_comma_join [OF ne])
  then show ?thesis by (simp add: row_to_labeled_point_def Let_def)
qed

theorem quoted_comma_splits_field_witness:
  "length [''7'', wrap_quotes ''1st,cabin'', ''adults'', ''women'', ''yes''] = 5 \<and> (1::nat) < 5
   \<and> CHR '','' \<in> set ''1st,cabin''
   \<and> row_to_labeled_point ''7,\"1st,cabin\",adults,women,yes'' = Inl ValueError_too_many_values"
proof -
  have l: "length [''7'', wrap_quotes ''1st,cabin'', ''adults'', ''women'', ''yes''] = 5" by simp
  have i: "(1::nat) < 5" by simp
  have f: "[''7'', wrap_quotes ''1st,cabin'', ''adults'', ''women'', ''yes''] ! 1 =
      wrap_quotes ''1st,cabin''" by simp
  have c: "CHR '','' \<in> set ''1st,cabin''" by simp
  have j: "join_comma [''7'', wrap_quotes ''1st,cabin'', ''adults'', ''women'', ''yes''] =
      ''7,\"1st,cabin\",adults,women,yes''" by (simp add: wrap_quotes_def)
  from quoted_comma_splits_field [OF l i f c]
  have "row_to_labeled_point ''7,\"1st,cabin\",adults,women,yes'' = Inl ValueError_too_many_values"
    unfolding j by (rule conjunct2)
  with l i c show ?thesis by blast
qed

end
